theory Spec2Isabelle
  imports Complex_Main "HOL-Library.Sublist" "HOL-Library.AList"
begin

section \<open>Python values, exceptions and the document store\<close>

text \<open>
  The services work on schemaless documents of a document database. A field of a document
  holds a dynamically typed value, and the code branches on the type (\<^verbatim>\<open>isinstance(start_date, str)\<close>),
  so values are a datatype. Strings are ASCII texts. A float is a finite double (the rational
  it denotes), an infinity or NaN; a datetime is a number of microseconds since the epoch, either naive
  (what \<^verbatim>\<open>datetime.utcnow()\<close> returns) or timezone-aware.
\<close>

datatype error =
  InvalidId | TypeError | ValueError | AttributeError | KeyError | JSONDecodeError | APIError

datatype pydatetime = Naive int | Aware int

datatype pyfloat = Finite rat | PosInf | NegInf | NaN

datatype pyval =
  VNone | VBool bool | VInt int | VFloat pyfloat | VStr string | VDatetime pydatetime

type_synonym doc = "string \<rightharpoonup> pyval"

text \<open>
  An ObjectId is identified with its canonical lower-case hexadecimal text. The collection
  \<^verbatim>\<open>db.crop_seasons\<close> maps the \<^verbatim>\<open>_id\<close> of a document to its other fields; a document that
  \<^verbatim>\<open>find_one\<close> returns always carries its \<^verbatim>\<open>_id\<close>, so it is a non-empty dict and
  \<^verbatim>\<open>not season\<close> holds exactly when nothing was found.
\<close>

type_synonym oid = string
type_synonym db = "oid \<rightharpoonup> doc"

text \<open>\<^verbatim>\<open>str.lower()\<close>: the 26 capital letters go to their small letters.\<close>

definition lower_char :: "char \<Rightarrow> char" where
  "lower_char c =
     (case map_of (zip ''ABCDEFGHIJKLMNOPQRSTUVWXYZ'' ''abcdefghijklmnopqrstuvwxyz'') c of
        None \<Rightarrow> c
      | Some l \<Rightarrow> l)"

definition lower :: "string \<Rightarrow> string" where
  "lower s = map lower_char s"

definition is_hex :: "char \<Rightarrow> bool" where
  "is_hex c =
     (let n = (of_char c :: nat)
      in (48 \<le> n \<and> n \<le> 57) \<or> (65 \<le> n \<and> n \<le> 70) \<or> (97 \<le> n \<and> n \<le> 102))"

text \<open>
  \<^verbatim>\<open>bson.ObjectId(s)\<close> for a string: a 24-character hexadecimal string is accepted, any
  other string raises \<^verbatim>\<open>InvalidId\<close>.
\<close>

definition ObjectId :: "string \<Rightarrow> error + oid" where
  "ObjectId s = (if length s = 24 \<and> list_all is_hex s then Inr (lower s) else Inl InvalidId)"

definition find_one :: "db \<Rightarrow> oid \<Rightarrow> doc option" where
  "find_one d i = d i"

text \<open>
  \<^verbatim>\<open>update_one(filter, {"$set": fields})\<close>: the matched document gets the fields; the
  modified count is 1 when a document matched and some field changed, 0 otherwise.
\<close>

fun set_fields :: "doc \<Rightarrow> (string \<times> pyval) list \<Rightarrow> doc" where
  "set_fields m [] = m"
| "set_fields m ((k, v) # kvs) = set_fields (m(k \<mapsto> v)) kvs"

definition update_one :: "db \<Rightarrow> oid \<Rightarrow> (string \<times> pyval) list \<Rightarrow> nat \<times> db" where
  "update_one d i kvs =
     (case d i of
        None \<Rightarrow> (0, d)
      | Some m \<Rightarrow>
          (if list_ex (\<lambda>(k, v). m k \<noteq> Some v) kvs then (1, d(i \<mapsto> set_fields m kvs))
           else (0, d)))"

text \<open>BSON stores a datetime with millisecond precision.\<close>

definition bson_datetime :: "int \<Rightarrow> pyval" where
  "bson_datetime t = VDatetime (Naive (t - t mod 1000))"

section \<open>Phase manager\<close>

definition PHASES :: "string list" where
  "PHASES = [''pre_sowing'', ''growth'', ''harvest'', ''completed'']"

record duration =
  growth_days :: int
  harvest_window :: int

definition CROP_DURATIONS :: "(string \<times> duration) list" where
  "CROP_DURATIONS =
     [(''rice'', \<lparr>growth_days = 120, harvest_window = 7\<rparr>),
      (''wheat'', \<lparr>growth_days = 120, harvest_window = 7\<rparr>),
      (''moong_dal'', \<lparr>growth_days = 60, harvest_window = 5\<rparr>),
      (''cotton'', \<lparr>growth_days = 150, harvest_window = 14\<rparr>),
      (''tomato'', \<lparr>growth_days = 75, harvest_window = 10\<rparr>),
      (''cucumber'', \<lparr>growth_days = 55, harvest_window = 7\<rparr>),
      (''lettuce'', \<lparr>growth_days = 45, harvest_window = 5\<rparr>),
      (''default'', \<lparr>growth_days = 90, harvest_window = 7\<rparr>)]"

text \<open>
  \<^verbatim>\<open>datetime.fromisoformat\<close> belongs to the Python library, and what it accepts depends on
  the Python version: it is a parameter \<open>fromiso\<close> of every function that reads a start date.
  Each reading of the clock (\<^verbatim>\<open>datetime.utcnow()\<close>) is a parameter too.
\<close>

type_synonym isoparser = "string \<Rightarrow> error + pydatetime"

text \<open>\<^verbatim>\<open>(datetime.utcnow() - start_date).days\<close>, with the conversion of a string before it.\<close>

definition timedelta_days :: "int \<Rightarrow> pydatetime \<Rightarrow> error + int" where
  "timedelta_days now start =
     (case start of
        Naive t \<Rightarrow> Inr ((now - t) div 86400000000)
      | Aware t \<Rightarrow> Inl TypeError)"

definition days_elapsed :: "isoparser \<Rightarrow> int \<Rightarrow> pyval \<Rightarrow> error + int" where
  "days_elapsed fromiso now start_date =
     (case start_date of
        VStr s \<Rightarrow> (case fromiso s of Inl e \<Rightarrow> Inl e | Inr dt \<Rightarrow> timedelta_days now dt)
      | VDatetime dt \<Rightarrow> timedelta_days now dt
      | _ \<Rightarrow> Inl TypeError)"

text \<open>\<^verbatim>\<open>season.get("crop_type", "default").lower()\<close>\<close>

definition crop_type_of :: "doc \<Rightarrow> error + string" where
  "crop_type_of season =
     (case season ''crop_type'' of
        None \<Rightarrow> Inr (lower ''default'')
      | Some (VStr s) \<Rightarrow> Inr (lower s)
      | Some _ \<Rightarrow> Inl AttributeError)"

text \<open>\<^verbatim>\<open>self.CROP_DURATIONS.get(crop_type, self.CROP_DURATIONS["default"])\<close>\<close>

definition duration_info :: "string \<Rightarrow> error + duration" where
  "duration_info crop_type =
     (case map_of CROP_DURATIONS ''default'' of
        None \<Rightarrow> Inl KeyError
      | Some dflt \<Rightarrow>
          Inr (case map_of CROP_DURATIONS crop_type of None \<Rightarrow> dflt | Some info \<Rightarrow> info))"

definition get_current_phase :: "isoparser \<Rightarrow> db \<Rightarrow> int \<Rightarrow> string \<Rightarrow> error + pyval" where
  "get_current_phase fromiso d now season_id =
     (case ObjectId season_id of
        Inl e \<Rightarrow> Inl e
      | Inr i \<Rightarrow>
     (case find_one d i of
        None \<Rightarrow> Inr (VStr ''pre_sowing'')
      | Some season \<Rightarrow>
     (case season ''current_phase'' of
        Some v \<Rightarrow> Inr v
      | None \<Rightarrow>
     (case season ''start_date'' of
        None \<Rightarrow> Inr (VStr ''pre_sowing'')
      | Some start_date \<Rightarrow>
     (case days_elapsed fromiso now start_date of
        Inl e \<Rightarrow> Inl e
      | Inr days \<Rightarrow>
     (case crop_type_of season of
        Inl e \<Rightarrow> Inl e
      | Inr crop_type \<Rightarrow>
     (case duration_info crop_type of
        Inl e \<Rightarrow> Inl e
      | Inr info \<Rightarrow>
          (if days < 0 then Inr (VStr ''pre_sowing'')
           else if days < growth_days info then Inr (VStr ''growth'')
           else if days < growth_days info + harvest_window info then Inr (VStr ''harvest'')
           else Inr (VStr ''completed'')))))))))"

definition update_phase :: "db \<Rightarrow> int \<Rightarrow> string \<Rightarrow> string \<Rightarrow> error + (bool \<times> db)" where
  "update_phase d now season_id new_phase =
     (if new_phase \<notin> set PHASES then Inr (False, d)
      else
        (case ObjectId season_id of
           Inl e \<Rightarrow> Inl e
         | Inr i \<Rightarrow>
             (let (modified_count, d') =
                    update_one d i
                      [(''current_phase'', VStr new_phase),
                       (''phase_updated_at'', bson_datetime now)]
              in Inr (modified_count > 0, d'))))"

text \<open>
  \<^verbatim>\<open>min_days * 0.9\<close> is a product of doubles. The double nearest to 0.9 is
  \<open>8106479329266893 / 2 ^ 53\<close>; the product of an integer \<open>n\<close> (below \<open>2 ^ 53\<close> in absolute
  value, so that its conversion is exact) with it is the exact product rounded to 53
  significant bits, ties to even. Python compares an \<^verbatim>\<open>int\<close> with a \<^verbatim>\<open>float\<close> exactly,
  so the product is kept as the rational it denotes.
\<close>

fun bitlen :: "nat \<Rightarrow> nat" where
  "bitlen n = (if n = 0 then 0 else Suc (bitlen (n div 2)))"

declare bitlen.simps [simp del]

definition round53 :: "nat \<Rightarrow> nat" where
  "round53 n =
     (let s = bitlen n - 53; q = n div 2 ^ s; r = n mod 2 ^ s
      in if 2 * r > 2 ^ s \<or> (2 * r = 2 ^ s \<and> odd q) then (q + 1) * 2 ^ s else q * 2 ^ s)"

definition significand_0_9 :: nat where
  "significand_0_9 = 8106479329266893"

definition times_0_9 :: "int \<Rightarrow> rat" where
  "times_0_9 n = of_int (sgn n) * of_nat (round53 (nat \<bar>n\<bar> * significand_0_9)) / 2 ^ 53"

text \<open>
  The reasons of \<^verbatim>\<open>can_transition_to_harvest\<close> are formatted strings; a reason is kept as
  the message and the values formatted into it.
\<close>

datatype reason =
  SeasonNotFound         \<comment> \<open>\<^verbatim>\<open>Season not found\<close>\<close>
| CropTooYoung int       \<comment> \<open>\<^verbatim>\<open>Crop too young (needs ~{min_days - days_elapsed} more days)\<close>\<close>
| CropAge int            \<comment> \<open>\<^verbatim>\<open>Crop age: {days_elapsed} days\<close>\<close>
| StartDateNotSet        \<comment> \<open>\<^verbatim>\<open>Start date not set\<close>\<close>
| HealthTooLow pyval     \<comment> \<open>\<^verbatim>\<open>Health too low: {health}/100\<close>\<close>
| HealthOk pyval         \<comment> \<open>\<^verbatim>\<open>Health: {health}/100\<close>\<close>
| CriticalPending nat    \<comment> \<open>\<^verbatim>\<open>{len(critical_tasks)} critical tasks pending\<close>\<close>
| NoCriticalPending      \<comment> \<open>\<^verbatim>\<open>No critical tasks pending\<close>\<close>

record readiness =
  ready :: bool
  reasons :: "reason list"
  recommendation :: "string option"

text \<open>
  \<^verbatim>\<open>health < 50\<close> compares numbers (a bool is the integer 0 or 1) and raises a TypeError on
  any other value. On floats it is the IEEE comparison: false on NaN and on the positive
  infinity, true on the negative infinity.
\<close>

fun float_less_50 :: "pyfloat \<Rightarrow> bool" where
  "float_less_50 (Finite x) = (x < 50)"
| "float_less_50 PosInf = False"
| "float_less_50 NegInf = True"
| "float_less_50 NaN = False"

definition less_than_50 :: "pyval \<Rightarrow> error + bool" where
  "less_than_50 health =
     (case health of
        VInt n \<Rightarrow> Inr (n < 50)
      | VBool b \<Rightarrow> Inr True
      | VFloat x \<Rightarrow> Inr (float_less_50 x)
      | _ \<Rightarrow> Inl TypeError)"


text \<open>The age check: the pair is the new value of \<^verbatim>\<open>ready\<close> and the reasons appended.\<close>

definition check_age :: "isoparser \<Rightarrow> int \<Rightarrow> doc \<Rightarrow> error + (bool \<times> reason list)" where
  "check_age fromiso now season =
     (case season ''start_date'' of
        None \<Rightarrow> Inr (False, [StartDateNotSet])
      | Some start_date \<Rightarrow>
     (case days_elapsed fromiso now start_date of
        Inl e \<Rightarrow> Inl e
      | Inr days \<Rightarrow>
     (case crop_type_of season of
        Inl e \<Rightarrow> Inl e
      | Inr crop_type \<Rightarrow>
     (case duration_info crop_type of
        Inl e \<Rightarrow> Inl e
      | Inr info \<Rightarrow>
          (let min_days = growth_days info
           in if of_int days < times_0_9 min_days
              then Inr (False, [CropTooYoung (min_days - days)])
              else Inr (True, [CropAge days]))))))"

definition check_health :: "doc \<Rightarrow> bool \<times> reason list \<Rightarrow> error + (bool \<times> reason list)" where
  "check_health season st =
     (case season ''health_score'' of
        None \<Rightarrow> Inr st
      | Some health \<Rightarrow>
          (case less_than_50 health of
             Inl e \<Rightarrow> Inl e
           | Inr low \<Rightarrow>
               (if low then Inr (False, snd st @ [HealthTooLow health])
                else Inr (fst st, snd st @ [HealthOk health]))))"

text \<open>
  \<^verbatim>\<open>TaskService.get_pending_tasks\<close> lives in \<^verbatim>\<open>task_service.py\<close>, which is not part of the
  sources at hand: what it returns for a season id is the parameter \<open>tasks\<close>.
\<close>

type_synonym taskservice = "string \<Rightarrow> error + doc list"

definition is_critical :: "doc \<Rightarrow> bool" where
  "is_critical t = (t ''priority'' = Some (VStr ''critical''))"

definition can_transition_to_harvest ::
  "isoparser \<Rightarrow> taskservice \<Rightarrow> db \<Rightarrow> int \<Rightarrow> string \<Rightarrow> error + readiness" where
  "can_transition_to_harvest fromiso tasks d now season_id =
     (case ObjectId season_id of
        Inl e \<Rightarrow> Inl e
      | Inr i \<Rightarrow>
     (case find_one d i of
        None \<Rightarrow> Inr \<lparr>ready = False, reasons = [SeasonNotFound], recommendation = None\<rparr>
      | Some season \<Rightarrow>
     (case check_age fromiso now season of
        Inl e \<Rightarrow> Inl e
      | Inr st1 \<Rightarrow>
     (case check_health season st1 of
        Inl e \<Rightarrow> Inl e
      | Inr st2 \<Rightarrow>
     (case tasks season_id of
        Inl e \<Rightarrow> Inl e
      | Inr pending_tasks \<Rightarrow>
          (let critical_tasks = filter is_critical pending_tasks;
               st3 = (if critical_tasks \<noteq> []
                      then (False, snd st2 @ [CriticalPending (length critical_tasks)])
                      else (fst st2, snd st2 @ [NoCriticalPending]))
           in Inr \<lparr>ready = fst st3, reasons = snd st3,
                   recommendation =
                     Some (if fst st3 then ''Can transition to harvest''
                           else ''Continue growth phase'')\<rparr>))))))"

text \<open>
  The result of \<^verbatim>\<open>auto_transition_phases\<close> is the returned phase (\<open>None\<close> for Python's
  \<^verbatim>\<open>None\<close>) and the database after the call. The three clock readings are those of
  \<^verbatim>\<open>get_current_phase\<close>, \<^verbatim>\<open>can_transition_to_harvest\<close> and \<^verbatim>\<open>update_phase\<close>.
\<close>

text \<open>\<^verbatim>\<open>await self.update_phase(season_id, phase); return phase\<close>\<close>

definition transition_to :: "db \<Rightarrow> int \<Rightarrow> string \<Rightarrow> string \<Rightarrow> error + (string option \<times> db)" where
  "transition_to d now season_id phase =
     (case update_phase d now season_id phase of
        Inl e \<Rightarrow> Inl e
      | Inr (ok, d') \<Rightarrow> Inr (Some phase, d'))"

definition auto_transition_phases ::
  "isoparser \<Rightarrow> taskservice \<Rightarrow> db \<Rightarrow> int \<Rightarrow> int \<Rightarrow> int \<Rightarrow> string
     \<Rightarrow> error + (string option \<times> db)" where
  "auto_transition_phases fromiso tasks d t_phase t_ready t_update season_id =
     (case get_current_phase fromiso d t_phase season_id of
        Inl e \<Rightarrow> Inl e
      | Inr current_phase \<Rightarrow>
          (if current_phase = VStr ''pre_sowing'' then
             (case ObjectId season_id of
                Inl e \<Rightarrow> Inl e
              | Inr i \<Rightarrow>
                  (case find_one d i of
                     None \<Rightarrow> Inr (None, d)
                   | Some season \<Rightarrow>
                       (if season ''start_date'' \<noteq> None
                        then transition_to d t_update season_id ''growth''
                        else Inr (None, d))))
           else if current_phase = VStr ''growth'' then
             (case can_transition_to_harvest fromiso tasks d t_ready season_id of
                Inl e \<Rightarrow> Inl e
              | Inr readiness \<Rightarrow>
                  (if ready readiness then transition_to d t_update season_id ''harvest''
                   else Inr (None, d)))
           else if current_phase = VStr ''harvest'' then
             (case ObjectId season_id of
                Inl e \<Rightarrow> Inl e
              | Inr i \<Rightarrow>
                  (case find_one d i of
                     None \<Rightarrow> Inr (None, d)
                   | Some season \<Rightarrow>
                       (if season ''actual_harvest_date'' \<noteq> None
                        then transition_to d t_update season_id ''completed''
                        else Inr (None, d))))
           else Inr (None, d)))"

text \<open>
  The database states that the operations of the phase manager lead to from a state \<open>d0\<close>,
  and the states in which every stored \<^verbatim>\<open>current_phase\<close> is one of the four phases.
\<close>

definition phases_valid :: "db \<Rightarrow> bool" where
  "phases_valid d =
     (\<forall>i season v. d i = Some season \<longrightarrow> season ''current_phase'' = Some v
        \<longrightarrow> v \<in> VStr ` set PHASES)"

inductive reachable :: "db \<Rightarrow> db \<Rightarrow> bool" for d0 :: db where
  start: "reachable d0 d0"
| by_update_phase:
    "reachable d0 d \<Longrightarrow> update_phase d now season_id new_phase = Inr (ok, d')
       \<Longrightarrow> reachable d0 d'"
| by_auto_transition:
    "reachable d0 d
       \<Longrightarrow> auto_transition_phases fromiso tasks d t_phase t_ready t_update season_id
             = Inr (res, d')
       \<Longrightarrow> reachable d0 d'"

section \<open>Feedback processor\<close>

text \<open>
  What \<^verbatim>\<open>json.loads\<close> returns: \<^verbatim>\<open>None\<close>, a bool, a number, a string, a list or a dict. A
  dict is the list of its items in insertion order.
\<close>

datatype json =
  JNull | JBool bool | JInt int | JFloat pyfloat | JStr string
| JArr "json list" | JObj "(string \<times> json) list"

text \<open>\<^verbatim>\<open>str.strip()\<close> removes the whitespace at both ends.\<close>

definition is_space :: "char \<Rightarrow> bool" where
  "is_space c = (let n = (of_char c :: nat) in (9 \<le> n \<and> n \<le> 13) \<or> (28 \<le> n \<and> n \<le> 32))"

definition strip :: "string \<Rightarrow> string" where
  "strip s = rev (dropWhile is_space (rev (dropWhile is_space s)))"

text \<open>\<^verbatim>\<open>keyword in text\<close> on strings: \<open>keyword\<close> occurs in \<open>text\<close> as a contiguous piece.\<close>

fun str_in :: "string \<Rightarrow> string \<Rightarrow> bool" where
  "str_in k [] = (k = [])"
| "str_in k (c # cs) = (prefix k (c # cs) \<or> str_in k cs)"

text \<open>Removal of the markdown code fences, between the two calls of \<^verbatim>\<open>strip\<close>.\<close>

definition strip_fences :: "string \<Rightarrow> string" where
  "strip_fences content =
     (let t0 = strip content;
          t1 = (if prefix ''```json'' t0 then drop 7 t0 else t0);
          t2 = (if prefix ''```'' t1 then drop 3 t1 else t1);
          t3 = (if suffix ''```'' t2 then take (length t2 - 3) t2 else t2)
      in strip t3)"

text \<open>
  \<^verbatim>\<open>field not in result\<close> and \<^verbatim>\<open>result[field] = None\<close>, for each kind of value that
  \<^verbatim>\<open>json.loads\<close> can return.
\<close>

fun field_in :: "string \<Rightarrow> json \<Rightarrow> error + bool" where
  "field_in f (JObj kvs) = Inr (f \<in> fst ` set kvs)"
| "field_in f (JArr xs) = Inr (JStr f \<in> set xs)"
| "field_in f (JStr s) = Inr (str_in f s)"
| "field_in f _ = Inl TypeError"

fun set_item :: "json \<Rightarrow> string \<Rightarrow> json \<Rightarrow> error + json" where
  "set_item (JObj kvs) f v = Inr (JObj (AList.update f v kvs))"
| "set_item _ f v = Inl TypeError"

definition required_fields :: "string list" where
  "required_fields = [''completed_as_planned'', ''actual_action'', ''is_deviation'', ''severity'']"

fun fill_fields :: "string list \<Rightarrow> json \<Rightarrow> error + json" where
  "fill_fields [] result = Inr result"
| "fill_fields (f # fs) result =
     (case field_in f result of
        Inl e \<Rightarrow> Inl e
      | Inr True \<Rightarrow> fill_fields fs result
      | Inr False \<Rightarrow>
          (case set_item result f JNull of
             Inl e \<Rightarrow> Inl e
           | Inr result' \<Rightarrow> fill_fields fs result'))"

text \<open>
  The \<^verbatim>\<open>try\<close> block. The chat completion is a call of an external service: its outcome is
  the parameter \<open>completion\<close>, an exception or the content of the first choice (\<open>None\<close> when
  the message has no content). \<^verbatim>\<open>json.loads\<close> is the parameter \<open>loads\<close>.
\<close>

type_synonym jsonparser = "string \<Rightarrow> error + json"

definition llm_analysis :: "jsonparser \<Rightarrow> error + string option \<Rightarrow> error + json" where
  "llm_analysis loads completion =
     (case completion of
        Inl e \<Rightarrow> Inl e
      | Inr None \<Rightarrow> Inl AttributeError
      | Inr (Some content) \<Rightarrow>
          (case loads (strip_fences content) of
             Inl e \<Rightarrow> Inl e
           | Inr result \<Rightarrow> fill_fields required_fields result))"

definition completion_keywords :: "string list" where
  "completion_keywords = [''done'', ''completed'', ''did it'', ''finished'', ''applied'', ''yes'']"

definition deviation_keywords :: "string list" where
  "deviation_keywords =
     [''instead'', ''different'', ''couldn't'', ''forgot'', ''didn't'', ''other'']"

definition fallback_analysis :: "string \<Rightarrow> string \<Rightarrow> json" where
  "fallback_analysis planned_action farmer_response =
     (let response_lower = lower farmer_response;
          completed = list_ex (\<lambda>keyword. str_in keyword response_lower) completion_keywords;
          has_deviation = list_ex (\<lambda>keyword. str_in keyword response_lower) deviation_keywords
      in if completed \<and> \<not> has_deviation then
           JObj [(''completed_as_planned'', JBool True),
                 (''actual_action'', JStr planned_action),
                 (''is_deviation'', JBool False),
                 (''deviation_type'', JStr ''none''),
                 (''severity'', JStr ''none''),
                 (''impact_summary'', JStr ''Task completed as planned''),
                 (''requires_agent_response'', JBool False)]
         else
           JObj [(''completed_as_planned'', JBool False),
                 (''actual_action'', JStr farmer_response),
                 (''is_deviation'', JBool True),
                 (''deviation_type'', JStr ''unknown''),
                 (''severity'', JStr ''moderate''),
                 (''impact_summary'',
                    JStr ''Farmer response indicates possible deviation - manual review needed''),
                 (''requires_agent_response'', JBool True)])"

definition analyze_feedback ::
  "jsonparser \<Rightarrow> error + string option \<Rightarrow> string \<Rightarrow> string \<Rightarrow> json" where
  "analyze_feedback loads completion planned_action farmer_response =
     (case llm_analysis loads completion of
        Inr result \<Rightarrow> result
      | Inl e \<Rightarrow> fallback_analysis planned_action farmer_response)"

text \<open>\<^verbatim>\<open>result[key]\<close> on a dict.\<close>

fun item :: "json \<Rightarrow> string \<Rightarrow> json option" where
  "item (JObj kvs) k = map_of kvs k"
| "item _ k = None"

record impact =
  yield :: int
  timeline :: int

definition impact_table :: "(string \<times> (string \<times> impact) list) list" where
  "impact_table =
     [(''fertilizer_change'',
         [(''minor'', \<lparr>yield = -2, timeline = 0\<rparr>),
          (''moderate'', \<lparr>yield = -10, timeline = 3\<rparr>),
          (''major'', \<lparr>yield = -20, timeline = 7\<rparr>)]),
      (''delay'',
         [(''minor'', \<lparr>yield = -1, timeline = 1\<rparr>),
          (''moderate'', \<lparr>yield = -5, timeline = 3\<rparr>),
          (''major'', \<lparr>yield = -15, timeline = 7\<rparr>)]),
      (''method_change'',
         [(''minor'', \<lparr>yield = -3, timeline = 0\<rparr>),
          (''moderate'', \<lparr>yield = -8, timeline = 2\<rparr>),
          (''major'', \<lparr>yield = -12, timeline = 5\<rparr>)]),
      (''quantity_change'',
         [(''minor'', \<lparr>yield = -2, timeline = 0\<rparr>),
          (''moderate'', \<lparr>yield = -7, timeline = 1\<rparr>),
          (''major'', \<lparr>yield = -15, timeline = 3\<rparr>)])]"

record impact_metrics =
  estimated_yield_change_percent :: int
  estimated_timeline_change_days :: int
  confidence :: string

definition calculate_impact_metrics :: "string \<Rightarrow> string \<Rightarrow> string \<Rightarrow> impact_metrics" where
  "calculate_impact_metrics deviation_type severity crop_type =
     (let by_severity = (case map_of impact_table deviation_type of None \<Rightarrow> [] | Some t \<Rightarrow> t);
          impact = (case map_of by_severity severity of
                      None \<Rightarrow> \<lparr>yield = 0, timeline = 0\<rparr>
                    | Some i \<Rightarrow> i)
      in \<lparr>estimated_yield_change_percent = yield impact,
          estimated_timeline_change_days = timeline impact,
          confidence = ''low''\<rparr>)"

section \<open>Concrete inputs\<close>

text \<open>
  Instances of the parameters for the evaluations below: a date parser that accepts no
  string (no start date below is a string), a task service with no pending task, and a
  JSON parser that knows the empty object only.
\<close>

definition no_dates :: isoparser where
  "no_dates s = Inl ValueError"

definition no_tasks :: taskservice where
  "no_tasks season_id = Inr []"

definition loads_empty_object :: jsonparser where
  "loads_empty_object s = (if s = ''{}'' then Inr (JObj []) else Inl JSONDecodeError)"

definition season1 :: string where
  "season1 = ''65a1b2c3d4e5f60718293a4b''"

definition day :: int where
  "day = 86400000000"

section \<open>Facts about the tables and the store\<close>

lemma ObjectId_season1: "ObjectId season1 = Inr season1"
  by (simp add: ObjectId_def season1_def is_hex_def lower_def lower_char_def)

lemma duration_info_eq:
  "duration_info ct =
     Inr (case map_of CROP_DURATIONS ct of
            None \<Rightarrow> \<lparr>growth_days = 90, harvest_window = 7\<rparr>
          | Some info \<Rightarrow> info)"
  by (simp add: duration_info_def CROP_DURATIONS_def)

lemma update_one_True:
  "update_one d i kvs = (n, d') \<Longrightarrow> 0 < n \<Longrightarrow>
     \<exists>season. d i = Some season \<and> d' = d(i \<mapsto> set_fields season kvs)
        \<and> (\<exists>(k, v) \<in> set kvs. season k \<noteq> Some v)"
  by (auto simp: update_one_def list_ex_iff split: option.splits if_splits)

lemma impact_by_type:
  "calculate_impact_metrics d s c =
     (let by_severity =
            (if d = ''fertilizer_change'' then
               [(''minor'', \<lparr>yield = -2, timeline = 0\<rparr>),
                (''moderate'', \<lparr>yield = -10, timeline = 3\<rparr>),
                (''major'', \<lparr>yield = -20, timeline = 7\<rparr>)]
             else if d = ''delay'' then
               [(''minor'', \<lparr>yield = -1, timeline = 1\<rparr>),
                (''moderate'', \<lparr>yield = -5, timeline = 3\<rparr>),
                (''major'', \<lparr>yield = -15, timeline = 7\<rparr>)]
             else if d = ''method_change'' then
               [(''minor'', \<lparr>yield = -3, timeline = 0\<rparr>),
                (''moderate'', \<lparr>yield = -8, timeline = 2\<rparr>),
                (''major'', \<lparr>yield = -12, timeline = 5\<rparr>)]
             else if d = ''quantity_change'' then
               [(''minor'', \<lparr>yield = -2, timeline = 0\<rparr>),
                (''moderate'', \<lparr>yield = -7, timeline = 1\<rparr>),
                (''major'', \<lparr>yield = -15, timeline = 3\<rparr>)]
             else []);
          impact = (case map_of by_severity s of None \<Rightarrow> \<lparr>yield = 0, timeline = 0\<rparr> | Some i \<Rightarrow> i)
      in \<lparr>estimated_yield_change_percent = yield impact,
          estimated_timeline_change_days = timeline impact,
          confidence = ''low''\<rparr>)"
  by (simp add: calculate_impact_metrics_def impact_table_def)

section \<open>The current phase\<close>

text \<open>
  Claim C1, as amended. For a season document that is found, has no \<^verbatim>\<open>current_phase\<close>, has a
  \<^verbatim>\<open>start_date\<close> that is a naive datetime or a string that \<^verbatim>\<open>fromisoformat\<close> turns into
  one, and has no \<^verbatim>\<open>crop_type\<close> or a string there, \<^verbatim>\<open>get_current_phase\<close> compares the
  elapsed days with the entry of \<^verbatim>\<open>CROP_DURATIONS\<close> for the lower-cased crop type (the
  \<^verbatim>\<open>default\<close> entry, 90 and 7, for a crop type that is not in the table): \<^verbatim>\<open>pre_sowing\<close>
  below 0 days, \<^verbatim>\<open>growth\<close> below \<^verbatim>\<open>growth_days\<close>, \<^verbatim>\<open>harvest\<close> below
  \<^verbatim>\<open>growth_days + harvest_window\<close>, \<^verbatim>\<open>completed\<close> from there on.
\<close>

theorem get_current_phase_by_dates:
  assumes id: "ObjectId season_id = Inr i" and found: "d i = Some season"
    and manual: "season ''current_phase'' = None"
    and start: "season ''start_date'' = Some (VDatetime (Naive t))
                \<or> (\<exists>s. season ''start_date'' = Some (VStr s) \<and> fromiso s = Inr (Naive t))"
    and crop: "season ''crop_type'' = None \<and> crop_type = ''default''
               \<or> (\<exists>s. season ''crop_type'' = Some (VStr s) \<and> crop_type = lower s)"
    and elapsed: "days = (now - t) div 86400000000"
    and table: "info = (case map_of CROP_DURATIONS crop_type of
                          None \<Rightarrow> \<lparr>growth_days = 90, harvest_window = 7\<rparr>
                        | Some entry \<Rightarrow> entry)"
  shows "get_current_phase fromiso d now season_id =
           Inr (VStr (if days < 0 then ''pre_sowing''
                      else if days < growth_days info then ''growth''
                      else if days < growth_days info + harvest_window info then ''harvest''
                      else ''completed''))"
proof -
  have de: "\<exists>sd. season ''start_date'' = Some sd \<and> days_elapsed fromiso now sd = Inr days"
    using start elapsed by (auto simp: days_elapsed_def timedelta_days_def)
  have ct: "crop_type_of season = Inr crop_type"
    using crop by (auto simp: crop_type_of_def lower_def lower_char_def)
  have di: "duration_info crop_type = Inr info"
    using table by (simp add: duration_info_eq)
  from de obtain sd where sd: "season ''start_date'' = Some sd"
    "days_elapsed fromiso now sd = Inr days" by blast
  show ?thesis
    using id found manual sd ct di by (simp add: get_current_phase_def find_one_def)
qed

theorem get_current_phase_by_dates_witness:
  "get_current_phase no_dates
     [season1 \<mapsto> [''start_date'' \<mapsto> VDatetime (Naive 0), ''crop_type'' \<mapsto> VStr ''Rice'']]
     (121 * day) season1 = Inr (VStr ''harvest'')"
proof -
  have "get_current_phase no_dates
     [season1 \<mapsto> [''start_date'' \<mapsto> VDatetime (Naive 0), ''crop_type'' \<mapsto> VStr ''Rice'']]
     (121 * day) season1 =
      Inr (VStr (if (121::int) < 0 then ''pre_sowing''
                      else if 121 < growth_days \<lparr>growth_days = 120, harvest_window = 7\<rparr> then ''growth''
                      else if 121 < growth_days \<lparr>growth_days = 120, harvest_window = 7\<rparr> 
                               + harvest_window \<lparr>growth_days = 120, harvest_window = 7\<rparr> then ''harvest''
                      else ''completed''))"
    by (rule get_current_phase_by_dates
          [where i = season1 and t = 0 and crop_type = "''rice''"
             and season = "[''start_date'' \<mapsto> VDatetime (Naive 0),
                            ''crop_type'' \<mapsto> VStr ''Rice'']"])
       (simp_all add: ObjectId_season1 day_def lower_def lower_char_def CROP_DURATIONS_def)
  then show ?thesis by simp
qed

text \<open>
  Claim C1 as stated speaks of every document with a \<^verbatim>\<open>start_date\<close> and no
  \<^verbatim>\<open>current_phase\<close>. A document whose \<^verbatim>\<open>crop_type\<close> is null is one: \<^verbatim>\<open>season.get\<close> returns
  \<^verbatim>\<open>None\<close>, and \<^verbatim>\<open>None.lower()\<close> raises an AttributeError before any comparison of days.
\<close>

theorem get_current_phase_null_crop_type:
  "get_current_phase no_dates
     [season1 \<mapsto> [''start_date'' \<mapsto> VDatetime (Naive 0), ''crop_type'' \<mapsto> VNone]]
     0 season1 = Inl AttributeError"
  by (simp add: get_current_phase_def ObjectId_season1 find_one_def days_elapsed_def
        timedelta_days_def crop_type_of_def)

text \<open>
  Claim C3. For every season document that contains a \<^verbatim>\<open>current_phase\<close> field,
  \<^verbatim>\<open>get_current_phase\<close> returns the stored value, whatever the start date, the crop type
  and the clock are.
\<close>

theorem get_current_phase_override:
  assumes "ObjectId season_id = Inr i" and "d i = Some season"
    and "season ''current_phase'' = Some v"
  shows "get_current_phase fromiso d now season_id = Inr v"
  using assms by (simp add: get_current_phase_def find_one_def)

theorem get_current_phase_override_witness:
  "get_current_phase no_dates
     [season1 \<mapsto> [''start_date'' \<mapsto> VDatetime (Naive 0), ''current_phase'' \<mapsto> VStr ''harvest'']]
     (200 * day) season1 = Inr (VStr ''harvest'')"
  by (rule get_current_phase_override
        [where i = season1
           and season = "[''start_date'' \<mapsto> VDatetime (Naive 0),
                          ''current_phase'' \<mapsto> VStr ''harvest'']"])
     (simp_all add: ObjectId_season1)

text \<open>
  Claim C9, as amended. For a season id that is a well-formed ObjectId, \<^verbatim>\<open>get_current_phase\<close>
  returns \<^verbatim>\<open>pre_sowing\<close> when no document has this id, and when the document has neither a
  \<^verbatim>\<open>current_phase\<close> nor a \<^verbatim>\<open>start_date\<close>.
\<close>

theorem get_current_phase_default:
  assumes "ObjectId season_id = Inr i"
    and "d i = None
         \<or> (\<exists>season. d i = Some season \<and> season ''current_phase'' = None
               \<and> season ''start_date'' = None)"
  shows "get_current_phase fromiso d now season_id = Inr (VStr ''pre_sowing'')"
  using assms by (auto simp: get_current_phase_def find_one_def)

theorem get_current_phase_default_witness:
  "get_current_phase no_dates [season1 \<mapsto> [''crop_type'' \<mapsto> VStr ''rice'']] 0 season1
     = Inr (VStr ''pre_sowing'')
   \<and> get_current_phase no_dates Map.empty 0 season1 = Inr (VStr ''pre_sowing'')"
proof
  show "get_current_phase no_dates [season1 \<mapsto> [''crop_type'' \<mapsto> VStr ''rice'']] 0 season1
     = Inr (VStr ''pre_sowing'')"
    by (rule get_current_phase_default [where i = season1]) (simp_all add: ObjectId_season1)
  show "get_current_phase no_dates Map.empty 0 season1 = Inr (VStr ''pre_sowing'')"
    by (rule get_current_phase_default [where i = season1]) (simp_all add: ObjectId_season1)
qed

text \<open>
  Claim C9 as stated speaks of every season id that matches no document. The id \<^verbatim>\<open>abc\<close>
  matches none, and the conversion \<^verbatim>\<open>ObjectId(season_id)\<close> raises InvalidId for it.
\<close>

theorem get_current_phase_malformed_id:
  "get_current_phase no_dates Map.empty 0 ''abc'' = Inl InvalidId"
  by (simp add: get_current_phase_def ObjectId_def)

section \<open>Manual update of the phase\<close>

text \<open>
  Claim C10. For a \<^verbatim>\<open>new_phase\<close> that is not one of the four phases, \<^verbatim>\<open>update_phase\<close>
  returns False and the database is the one before the call. When it returns True, the new
  phase is one of the four, a document with this id existed, and the document changed.
\<close>

theorem update_phase_guard:
  "(new_phase \<notin> set PHASES \<longrightarrow> update_phase d now season_id new_phase = Inr (False, d))
   \<and> (update_phase d now season_id new_phase = Inr (True, d') \<longrightarrow>
        new_phase \<in> set PHASES
        \<and> (\<exists>i season. ObjectId season_id = Inr i \<and> d i = Some season
              \<and> d' = d(i \<mapsto> season(''current_phase'' \<mapsto> VStr new_phase,
                                      ''phase_updated_at'' \<mapsto> bson_datetime now))
              \<and> d' i \<noteq> d i))"
proof (intro conjI impI)
  assume "new_phase \<notin> set PHASES"
  then show "update_phase d now season_id new_phase = Inr (False, d)"
    by (simp add: update_phase_def)
next
  assume ok: "update_phase d now season_id new_phase = Inr (True, d')"
  then show "new_phase \<in> set PHASES"
    by (auto simp: update_phase_def split: if_splits)
next
  assume ok: "update_phase d now season_id new_phase = Inr (True, d')"
  let ?kvs = "[(''current_phase'', VStr new_phase), (''phase_updated_at'', bson_datetime now)]"
  from ok obtain i n where i: "ObjectId season_id = Inr i"
    and u: "update_one d i ?kvs = (n, d')" and n: "0 < n"
    by (auto simp: update_phase_def split: if_splits sum.splits prod.splits)
  from update_one_True [OF u n] obtain season where s: "d i = Some season"
    and d': "d' = d(i \<mapsto> set_fields season ?kvs)"
    and ch: "\<exists>(k, v) \<in> set ?kvs. season k \<noteq> Some v" by blast
  have "set_fields season ?kvs \<noteq> season"
  proof
    assume eq: "set_fields season ?kvs = season"
    then have "season ''current_phase'' = Some (VStr new_phase)"
      and "season ''phase_updated_at'' = Some (bson_datetime now)"
      by (auto simp: fun_eq_iff split: if_splits)
    with ch show False by auto
  qed
  with i s d' show "\<exists>i season. ObjectId season_id = Inr i \<and> d i = Some season
              \<and> d' = d(i \<mapsto> season(''current_phase'' \<mapsto> VStr new_phase,
                                      ''phase_updated_at'' \<mapsto> bson_datetime now))
              \<and> d' i \<noteq> d i"
    by auto
qed

theorem update_phase_guard_witness:
  "''flowering'' \<notin> set PHASES
   \<and> update_phase [season1 \<mapsto> Map.empty] 0 season1 ''flowering'' = Inr (False, [season1 \<mapsto> Map.empty])
   \<and> update_phase [season1 \<mapsto> Map.empty] 0 season1 ''harvest''
       = Inr (True, [season1 \<mapsto> [''current_phase'' \<mapsto> VStr ''harvest'',
                                  ''phase_updated_at'' \<mapsto> bson_datetime 0]])
   \<and> ''harvest'' \<in> set PHASES"
proof -
  have bad: "''flowering'' \<notin> set PHASES" by (simp add: PHASES_def)
  have good: "update_phase [season1 \<mapsto> Map.empty] 0 season1 ''harvest''
       = Inr (True, [season1 \<mapsto> [''current_phase'' \<mapsto> VStr ''harvest'',
                                  ''phase_updated_at'' \<mapsto> bson_datetime 0]])"
    by (simp add: update_phase_def PHASES_def ObjectId_season1 update_one_def)
  from update_phase_guard [of "''flowering''" "[season1 \<mapsto> Map.empty]" 0 season1] bad
  have 1: "update_phase [season1 \<mapsto> Map.empty] 0 season1 ''flowering'' = Inr (False, [season1 \<mapsto> Map.empty])"
    by blast
  from update_phase_guard [of "''harvest''" "[season1 \<mapsto> Map.empty]" 0 season1] good
  have 2: "''harvest'' \<in> set PHASES" by blast
  from bad 1 good 2 show ?thesis by blast
qed

section \<open>Impact metrics\<close>

text \<open>
  Claim C5. \<^verbatim>\<open>calculate_impact_metrics\<close> is a lookup in a fixed table: the confidence is
  always \<^verbatim>\<open>low\<close>, the crop type does not matter, the twelve pairs of a deviation type and
  a severity give the tabulated yield change and timeline change, and every other pair
  gives 0 and 0.
\<close>

theorem calculate_impact_metrics_lookup:
  "confidence (calculate_impact_metrics deviation_type severity crop_type) = ''low''
   \<and> calculate_impact_metrics deviation_type severity crop_type
       = calculate_impact_metrics deviation_type severity ''general''
   \<and> (estimated_yield_change_percent (calculate_impact_metrics deviation_type severity crop_type),
       estimated_timeline_change_days (calculate_impact_metrics deviation_type severity crop_type))
      = (if deviation_type = ''fertilizer_change'' then
           (if severity = ''minor'' then (-2, 0) else if severity = ''moderate'' then (-10, 3)
            else if severity = ''major'' then (-20, 7) else (0, 0))
         else if deviation_type = ''delay'' then
           (if severity = ''minor'' then (-1, 1) else if severity = ''moderate'' then (-5, 3)
            else if severity = ''major'' then (-15, 7) else (0, 0))
         else if deviation_type = ''method_change'' then
           (if severity = ''minor'' then (-3, 0) else if severity = ''moderate'' then (-8, 2)
            else if severity = ''major'' then (-12, 5) else (0, 0))
         else if deviation_type = ''quantity_change'' then
           (if severity = ''minor'' then (-2, 0) else if severity = ''moderate'' then (-7, 1)
            else if severity = ''major'' then (-15, 3) else (0, 0))
         else (0, 0))"
proof -
  have low: "confidence (calculate_impact_metrics deviation_type severity crop_type) = ''low''"
    by (simp add: calculate_impact_metrics_def Let_def)
  have indep: "calculate_impact_metrics deviation_type severity crop_type
                 = calculate_impact_metrics deviation_type severity ''general''"
    by (simp add: calculate_impact_metrics_def)
  have tab: "(estimated_yield_change_percent (calculate_impact_metrics deviation_type severity crop_type),
       estimated_timeline_change_days (calculate_impact_metrics deviation_type severity crop_type))
      = (if deviation_type = ''fertilizer_change'' then
           (if severity = ''minor'' then (-2, 0) else if severity = ''moderate'' then (-10, 3)
            else if severity = ''major'' then (-20, 7) else (0, 0))
         else if deviation_type = ''delay'' then
           (if severity = ''minor'' then (-1, 1) else if severity = ''moderate'' then (-5, 3)
            else if severity = ''major'' then (-15, 7) else (0, 0))
         else if deviation_type = ''method_change'' then
           (if severity = ''minor'' then (-3, 0) else if severity = ''moderate'' then (-8, 2)
            else if severity = ''major'' then (-12, 5) else (0, 0))
         else if deviation_type = ''quantity_change'' then
           (if severity = ''minor'' then (-2, 0) else if severity = ''moderate'' then (-7, 1)
            else if severity = ''major'' then (-15, 3) else (0, 0))
         else (0, 0))"
    by (simp add: impact_by_type)
  from low indep tab show ?thesis by blast
qed

section \<open>Reachable states\<close>

lemma update_phase_cases:
  assumes "update_phase d now season_id p = Inr (ok, d')"
  shows "d' = d
         \<or> (\<exists>i season. ObjectId season_id = Inr i \<and> d i = Some season \<and> p \<in> set PHASES
               \<and> d' = d(i \<mapsto> season(''current_phase'' \<mapsto> VStr p,
                                       ''phase_updated_at'' \<mapsto> bson_datetime now)))"
  using assms
  by (auto simp: update_phase_def update_one_def
           split: if_splits sum.splits option.splits)

lemma update_phase_found:
  assumes "ObjectId season_id = Inr i" and "d i = Some season" and "p \<in> set PHASES"
  shows "\<exists>ok d'. update_phase d now season_id p = Inr (ok, d')
           \<and> (\<exists>season'. d' i = Some season' \<and> season' ''current_phase'' = Some (VStr p))"
proof (cases "season ''current_phase'' = Some (VStr p)
              \<and> season ''phase_updated_at'' = Some (bson_datetime now)")
  case True
  then show ?thesis using assms
    by (auto simp: update_phase_def update_one_def)
next
  case False
  then show ?thesis using assms
    by (auto simp: update_phase_def update_one_def)
qed

lemma update_phase_valid:
  assumes "phases_valid d" and "update_phase d now season_id p = Inr (ok, d')"
  shows "phases_valid d'"
  using update_phase_cases [OF assms(2)] assms(1)
  by (auto simp: phases_valid_def split: if_splits)

lemma transition_to_valid:
  assumes "phases_valid d" and "transition_to d now season_id p = Inr (res, d')"
  shows "phases_valid d'"
  using assms
  by (auto simp: transition_to_def split: sum.splits prod.splits dest: update_phase_valid)

lemma auto_transition_valid:
  assumes "phases_valid d"
    and "auto_transition_phases fromiso tasks d t_phase t_ready t_update season_id = Inr (res, d')"
  shows "phases_valid d'"
  using assms
  by (auto simp: auto_transition_phases_def
           split: sum.splits option.splits if_splits dest: transition_to_valid)

lemma reachable_valid:
  assumes "reachable d0 d" and "phases_valid d0"
  shows "phases_valid d"
  using assms
proof (induction rule: reachable.induct)
  case start
  then show ?case .
next
  case (by_update_phase d now season_id new_phase ok d')
  then show ?case by (blast intro: update_phase_valid)
next
  case (by_auto_transition d fromiso tasks t_phase t_ready t_update season_id res d')
  then show ?case by (blast intro: auto_transition_valid)
qed

lemma get_current_phase_valid:
  assumes "phases_valid d" and "get_current_phase fromiso d now season_id = Inr v"
  shows "v \<in> VStr ` set PHASES"
  using assms
  by (auto simp: get_current_phase_def find_one_def phases_valid_def PHASES_def
           split: sum.splits option.splits if_splits)

text \<open>
  Claim C2. Start from a database in which every stored \<^verbatim>\<open>current_phase\<close> is one of the four
  phases (in particular one in which none is stored yet). In every state that
  \<^verbatim>\<open>update_phase\<close> and \<^verbatim>\<open>auto_transition_phases\<close> lead to, whatever \<^verbatim>\<open>get_current_phase\<close>
  returns, for any season id and at any time, is one of \<^verbatim>\<open>pre_sowing\<close>, \<^verbatim>\<open>growth\<close>,
  \<^verbatim>\<open>harvest\<close>, \<^verbatim>\<open>completed\<close>.
\<close>

theorem get_current_phase_is_phase:
  assumes "phases_valid d0" and "reachable d0 d"
    and "get_current_phase fromiso d now season_id = Inr v"
  shows "v \<in> VStr ` set PHASES"
  using assms by (blast intro: get_current_phase_valid reachable_valid)

theorem get_current_phase_is_phase_witness:
  "phases_valid [season1 \<mapsto> Map.empty]
   \<and> reachable [season1 \<mapsto> Map.empty]
         [season1 \<mapsto> [''current_phase'' \<mapsto> VStr ''harvest'',
                        ''phase_updated_at'' \<mapsto> bson_datetime 0]]
   \<and> get_current_phase no_dates
         [season1 \<mapsto> [''current_phase'' \<mapsto> VStr ''harvest'',
                        ''phase_updated_at'' \<mapsto> bson_datetime 0]] day season1
       = Inr (VStr ''harvest'')
   \<and> VStr ''harvest'' \<in> VStr ` set PHASES"
proof -
  let ?d0 = "[season1 \<mapsto> Map.empty] :: db"
  let ?d1 = "[season1 \<mapsto> [''current_phase'' \<mapsto> VStr ''harvest'',
                             ''phase_updated_at'' \<mapsto> bson_datetime 0]] :: db"
  have inv: "phases_valid ?d0"
    by (simp add: phases_valid_def)
  have upd: "update_phase ?d0 0 season1 ''harvest'' = Inr (True, ?d1)"
    by (simp add: update_phase_def PHASES_def ObjectId_season1 update_one_def)
  have reach: "reachable ?d0 ?d1"
    by (rule reachable.by_update_phase [OF reachable.start upd])
  have get: "get_current_phase no_dates ?d1 day season1 = Inr (VStr ''harvest'')"
    by (simp add: get_current_phase_def ObjectId_season1 find_one_def)
  from get_current_phase_is_phase [OF inv reach get]
  have "VStr ''harvest'' \<in> VStr ` set PHASES" .
  with inv reach get show ?thesis by blast
qed

section \<open>Automatic transitions\<close>

lemma transition_to_found:
  assumes "ObjectId season_id = Inr i" and "d i = Some season" and "p \<in> set PHASES"
    and "transition_to d now season_id p = Inr (res, d')"
  shows "res = Some p \<and> get_current_phase fromiso' d' now' season_id = Inr (VStr p)"
proof -
  from update_phase_found [of season_id i d season p now] assms
  obtain season' where "res = Some p" "d' i = Some season'"
    "season' ''current_phase'' = Some (VStr p)"
    by (auto simp: transition_to_def)
  with assms(1) show ?thesis
    by (simp add: get_current_phase_def find_one_def)
qed

lemma ready_found:
  assumes "can_transition_to_harvest fromiso tasks d now season_id = Inr r" and "ready r"
  shows "\<exists>i season. ObjectId season_id = Inr i \<and> d i = Some season"
  using assms
  by (auto simp: can_transition_to_harvest_def find_one_def split: sum.splits option.splits)

lemma get_current_phase_id:
  "get_current_phase fromiso d now season_id = Inr v \<Longrightarrow> \<exists>i. ObjectId season_id = Inr i"
  by (auto simp: get_current_phase_def split: sum.splits)

lemma next_phase_index:
  "\<exists>k. Suc k < length PHASES \<and> ''pre_sowing'' = PHASES ! k \<and> ''growth'' = PHASES ! Suc k"
  "\<exists>k. Suc k < length PHASES \<and> ''growth'' = PHASES ! k \<and> ''harvest'' = PHASES ! Suc k"
  "\<exists>k. Suc k < length PHASES \<and> ''harvest'' = PHASES ! k \<and> ''completed'' = PHASES ! Suc k"
proof -
  have "Suc 0 < length PHASES \<and> ''pre_sowing'' = PHASES ! 0 \<and> ''growth'' = PHASES ! Suc 0"
    by (simp add: PHASES_def)
  then show "\<exists>k. Suc k < length PHASES \<and> ''pre_sowing'' = PHASES ! k \<and> ''growth'' = PHASES ! Suc k"
    by (rule exI)
  have "Suc (Suc 0) < length PHASES \<and> ''growth'' = PHASES ! Suc 0
          \<and> ''harvest'' = PHASES ! Suc (Suc 0)"
    by (simp add: PHASES_def)
  then show "\<exists>k. Suc k < length PHASES \<and> ''growth'' = PHASES ! k \<and> ''harvest'' = PHASES ! Suc k"
    by (rule exI)
  have "Suc (Suc (Suc 0)) < length PHASES \<and> ''harvest'' = PHASES ! Suc (Suc 0)
          \<and> ''completed'' = PHASES ! Suc (Suc (Suc 0))"
    by (simp add: PHASES_def)
  then show "\<exists>k. Suc k < length PHASES \<and> ''harvest'' = PHASES ! k \<and> ''completed'' = PHASES ! Suc k"
    by (rule exI)
qed

lemma one_step_after:
  assumes "res = Some q" and "current = VStr c"
    and "\<exists>k. Suc k < length PHASES \<and> c = PHASES ! k \<and> q = PHASES ! Suc k"
    and "\<And>fromiso' now'. G fromiso' now' = Inr (VStr q)"
  shows "\<forall>p. res = Some p \<longrightarrow>
           (\<exists>k. Suc k < length PHASES \<and> current = VStr (PHASES ! k) \<and> p = PHASES ! Suc k)
         \<and> (\<forall>fromiso' now'. G fromiso' now' = Inr (VStr p))"
  using assms by auto

lemma auto_transition_pre_sowing:
  assumes "get_current_phase fromiso d t_phase season_id = Inr (VStr ''pre_sowing'')"
    and "ObjectId season_id = Inr i"
  shows "auto_transition_phases fromiso tasks d t_phase t_ready t_update season_id =
           (case d i of
              None \<Rightarrow> Inr (None, d)
            | Some season \<Rightarrow>
                (if season ''start_date'' \<noteq> None
                 then transition_to d t_update season_id ''growth''
                 else Inr (None, d)))"
  using assms by (simp add: auto_transition_phases_def find_one_def)

lemma auto_transition_growth:
  assumes "get_current_phase fromiso d t_phase season_id = Inr (VStr ''growth'')"
  shows "auto_transition_phases fromiso tasks d t_phase t_ready t_update season_id =
           (case can_transition_to_harvest fromiso tasks d t_ready season_id of
              Inl e \<Rightarrow> Inl e
            | Inr readiness \<Rightarrow>
                (if ready readiness then transition_to d t_update season_id ''harvest''
                 else Inr (None, d)))"
  using assms by (simp add: auto_transition_phases_def)

lemma auto_transition_harvest:
  assumes "get_current_phase fromiso d t_phase season_id = Inr (VStr ''harvest'')"
    and "ObjectId season_id = Inr i"
  shows "auto_transition_phases fromiso tasks d t_phase t_ready t_update season_id =
           (case d i of
              None \<Rightarrow> Inr (None, d)
            | Some season \<Rightarrow>
                (if season ''actual_harvest_date'' \<noteq> None
                 then transition_to d t_update season_id ''completed''
                 else Inr (None, d)))"
  using assms by (simp add: auto_transition_phases_def find_one_def)

lemma auto_transition_other:
  assumes "get_current_phase fromiso d t_phase season_id = Inr current"
    and "current \<noteq> VStr ''pre_sowing''" and "current \<noteq> VStr ''growth''"
    and "current \<noteq> VStr ''harvest''"
  shows "auto_transition_phases fromiso tasks d t_phase t_ready t_update season_id
           = Inr (None, d)"
  using assms by (simp add: auto_transition_phases_def)

lemma auto_transition_current:
  assumes "auto_transition_phases fromiso tasks d t_phase t_ready t_update season_id = Inr x"
  shows "\<exists>current. get_current_phase fromiso d t_phase season_id = Inr current"
  using assms by (cases "get_current_phase fromiso d t_phase season_id")
    (simp_all add: auto_transition_phases_def)

lemma stays_put:
  assumes "res = None" and "d' = d" and "\<not> (A1 \<and> B1)" and "\<not> (A2 \<and> B2)" and "\<not> (A3 \<and> B3)"
  shows "(X \<or> Y \<or> Z
            \<or> res = None \<and> d' = d \<and> \<not> (A1 \<and> B1) \<and> \<not> (A2 \<and> B2) \<and> \<not> (A3 \<and> B3))
         \<and> (\<forall>p. res = Some p \<longrightarrow> Q p)"
  using assms by simp

lemma auto_transition_returns:
  assumes run: "auto_transition_phases fromiso tasks d t_phase t_ready t_update season_id
                  = Inr (res, d')"
  shows "\<exists>current.
           get_current_phase fromiso d t_phase season_id = Inr current
         \<and> (res = Some ''growth'' \<and> current = VStr ''pre_sowing''
              \<and> (\<exists>i season. ObjectId season_id = Inr i \<and> d i = Some season
                    \<and> season ''start_date'' \<noteq> None)
            \<or> res = Some ''harvest'' \<and> current = VStr ''growth''
              \<and> (\<exists>r. can_transition_to_harvest fromiso tasks d t_ready season_id = Inr r
                    \<and> ready r)
            \<or> res = Some ''completed'' \<and> current = VStr ''harvest''
              \<and> (\<exists>i season. ObjectId season_id = Inr i \<and> d i = Some season
                    \<and> season ''actual_harvest_date'' \<noteq> None)
            \<or> res = None \<and> d' = d
              \<and> \<not> (current = VStr ''pre_sowing''
                    \<and> (\<exists>i season. ObjectId season_id = Inr i \<and> d i = Some season
                          \<and> season ''start_date'' \<noteq> None))
              \<and> \<not> (current = VStr ''growth''
                    \<and> (\<exists>r. can_transition_to_harvest fromiso tasks d t_ready season_id = Inr r
                          \<and> ready r))
              \<and> \<not> (current = VStr ''harvest''
                    \<and> (\<exists>i season. ObjectId season_id = Inr i \<and> d i = Some season
                          \<and> season ''actual_harvest_date'' \<noteq> None)))
         \<and> (\<forall>p. res = Some p \<longrightarrow>
                (\<exists>k. Suc k < length PHASES \<and> current = VStr (PHASES ! k) \<and> p = PHASES ! Suc k)
              \<and> (\<forall>fromiso' now'.
                    get_current_phase fromiso' d' now' season_id = Inr (VStr p)))"
proof -
  from auto_transition_current [OF run]
  obtain current where cur: "get_current_phase fromiso d t_phase season_id = Inr current"
    by blast
  from get_current_phase_id [OF cur] obtain i where i: "ObjectId season_id = Inr i" by blast
  let ?started = "\<exists>i season. ObjectId season_id = Inr i \<and> d i = Some season
                          \<and> season ''start_date'' \<noteq> None"
  let ?ripe = "\<exists>r. can_transition_to_harvest fromiso tasks d t_ready season_id = Inr r
                          \<and> ready r"
  let ?harvested = "\<exists>i season. ObjectId season_id = Inr i \<and> d i = Some season
                          \<and> season ''actual_harvest_date'' \<noteq> None"
  let ?D = "res = Some ''growth'' \<and> current = VStr ''pre_sowing'' \<and> ?started
            \<or> res = Some ''harvest'' \<and> current = VStr ''growth'' \<and> ?ripe
            \<or> res = Some ''completed'' \<and> current = VStr ''harvest'' \<and> ?harvested
            \<or> res = None \<and> d' = d
                \<and> \<not> (current = VStr ''pre_sowing'' \<and> ?started)
                \<and> \<not> (current = VStr ''growth'' \<and> ?ripe)
                \<and> \<not> (current = VStr ''harvest'' \<and> ?harvested)"
  let ?S = "\<forall>p. res = Some p \<longrightarrow>
                (\<exists>k. Suc k < length PHASES \<and> current = VStr (PHASES ! k) \<and> p = PHASES ! Suc k)
              \<and> (\<forall>fromiso' now'.
                    get_current_phase fromiso' d' now' season_id = Inr (VStr p))"
  have mem: "''growth'' \<in> set PHASES" "''harvest'' \<in> set PHASES" "''completed'' \<in> set PHASES"
    by (simp_all add: PHASES_def)
  have ne: "VStr ''pre_sowing'' \<noteq> VStr ''growth''" "VStr ''pre_sowing'' \<noteq> VStr ''harvest''"
    "VStr ''growth'' \<noteq> VStr ''pre_sowing''" "VStr ''growth'' \<noteq> VStr ''harvest''"
    "VStr ''harvest'' \<noteq> VStr ''pre_sowing''" "VStr ''harvest'' \<noteq> VStr ''growth''"
    by simp_all
  consider (pre) "current = VStr ''pre_sowing''" | (gro) "current = VStr ''growth''"
    | (har) "current = VStr ''harvest''"
    | (other) "current \<noteq> VStr ''pre_sowing''" "current \<noteq> VStr ''growth''"
        "current \<noteq> VStr ''harvest''"
    by blast
  then have main: "?D \<and> ?S"
  proof cases
    case pre
    have n2: "\<not> (current = VStr ''growth'' \<and> ?ripe)" using pre ne by simp
    have n3: "\<not> (current = VStr ''harvest'' \<and> ?harvested)" using pre ne by simp
    from run auto_transition_pre_sowing [OF cur [unfolded pre] i]
    have eq: "(case d i of
              None \<Rightarrow> Inr (None, d)
            | Some season \<Rightarrow>
                (if season ''start_date'' \<noteq> None
                 then transition_to d t_update season_id ''growth''
                 else Inr (None, d))) = Inr (res, d')"
      by simp
    show ?thesis
    proof (cases "?started")
      case True
      then obtain season where s: "d i = Some season" "season ''start_date'' \<noteq> None"
        using i by auto
      with eq have t: "transition_to d t_update season_id ''growth'' = Inr (res, d')"
        by simp
      have r: "res = Some ''growth''"
        and after: "\<And>fromiso' now'. get_current_phase fromiso' d' now' season_id
                      = Inr (VStr ''growth'')"
        using transition_to_found [OF i s(1) mem(1) t] by blast+
      have "?D" using r pre True by (intro disjI1 conjI)
      moreover have "?S" using r pre next_phase_index(1) after by (rule one_step_after)
      ultimately show ?thesis ..
    next
      case False
      have "res = None \<and> d' = d"
      proof (cases "d i")
        case None
        with eq show ?thesis by simp
      next
        case (Some season)
        with False i have "season ''start_date'' = None" by auto
        with Some eq show ?thesis by simp
      qed
      then have "res = None" "d' = d" by simp_all
      moreover from False have "\<not> (current = VStr ''pre_sowing'' \<and> ?started)" by simp
      ultimately show ?thesis using n2 n3 by (rule stays_put)
    qed
  next
    case gro
    have n1: "\<not> (current = VStr ''pre_sowing'' \<and> ?started)" using gro ne by simp
    have n3: "\<not> (current = VStr ''harvest'' \<and> ?harvested)" using gro ne by simp
    from run auto_transition_growth [OF cur [unfolded gro]]
    have eq: "(case can_transition_to_harvest fromiso tasks d t_ready season_id of
              Inl e \<Rightarrow> Inl e
            | Inr readiness \<Rightarrow>
                (if ready readiness then transition_to d t_update season_id ''harvest''
                 else Inr (None, d))) = Inr (res, d')"
      by simp
    show ?thesis
    proof (cases "?ripe")
      case True
      then obtain r where r: "can_transition_to_harvest fromiso tasks d t_ready season_id = Inr r"
        "ready r" by blast
      from ready_found [OF r] i obtain season where s: "d i = Some season" by auto
      from eq r have t: "transition_to d t_update season_id ''harvest'' = Inr (res, d')"
        by simp
      have rs: "res = Some ''harvest''"
        and after: "\<And>fromiso' now'. get_current_phase fromiso' d' now' season_id
                      = Inr (VStr ''harvest'')"
        using transition_to_found [OF i s mem(2) t] by blast+
      have "?D" using rs gro True by (intro disjI2 disjI1 conjI)
      moreover have "?S" using rs gro next_phase_index(2) after by (rule one_step_after)
      ultimately show ?thesis ..
    next
      case False
      have "res = None \<and> d' = d"
      proof (cases "can_transition_to_harvest fromiso tasks d t_ready season_id")
        case (Inl e)
        with eq show ?thesis by simp
      next
        case (Inr r)
        with False have "\<not> ready r" by simp
        with Inr eq show ?thesis by simp
      qed
      then have "res = None" "d' = d" by simp_all
      moreover note n1
      moreover from False have "\<not> (current = VStr ''growth'' \<and> ?ripe)" by simp
      ultimately show ?thesis using n3 by (rule stays_put)
    qed
  next
    case har
    have n1: "\<not> (current = VStr ''pre_sowing'' \<and> ?started)" using har ne by simp
    have n2: "\<not> (current = VStr ''growth'' \<and> ?ripe)" using har ne by simp
    from run auto_transition_harvest [OF cur [unfolded har] i]
    have eq: "(case d i of
              None \<Rightarrow> Inr (None, d)
            | Some season \<Rightarrow>
                (if season ''actual_harvest_date'' \<noteq> None
                 then transition_to d t_update season_id ''completed''
                 else Inr (None, d))) = Inr (res, d')"
      by simp
    show ?thesis
    proof (cases "?harvested")
      case True
      then obtain season where s: "d i = Some season" "season ''actual_harvest_date'' \<noteq> None"
        using i by auto
      with eq have t: "transition_to d t_update season_id ''completed'' = Inr (res, d')"
        by simp
      have rs: "res = Some ''completed''"
        and after: "\<And>fromiso' now'. get_current_phase fromiso' d' now' season_id
                      = Inr (VStr ''completed'')"
        using transition_to_found [OF i s(1) mem(3) t] by blast+
      have "?D" using rs har True by (intro disjI2 disjI1 conjI)
      moreover have "?S" using rs har next_phase_index(3) after by (rule one_step_after)
      ultimately show ?thesis ..
    next
      case False
      have "res = None \<and> d' = d"
      proof (cases "d i")
        case None
        with eq show ?thesis by simp
      next
        case (Some season)
        with False i have "season ''actual_harvest_date'' = None" by auto
        with Some eq show ?thesis by simp
      qed
      then have "res = None" "d' = d" by simp_all
      moreover note n1 n2
      moreover from False have "\<not> (current = VStr ''harvest'' \<and> ?harvested)" by simp
      ultimately show ?thesis by (rule stays_put)
    qed
  next
    case other
    from run auto_transition_other [OF cur other] have "res = None" "d' = d" by simp_all
    moreover have "\<not> (current = VStr ''pre_sowing'' \<and> ?started)" using other by simp
    moreover have "\<not> (current = VStr ''growth'' \<and> ?ripe)" using other by simp
    moreover have "\<not> (current = VStr ''harvest'' \<and> ?harvested)" using other by simp
    ultimately show ?thesis by (rule stays_put)
  qed
  show ?thesis
  proof (rule exI)
    show "get_current_phase fromiso d t_phase season_id = Inr current \<and> ?D \<and> ?S"
      by (rule conjI [OF cur main])
  qed
qed

lemma transition_to_returns:
  assumes "ObjectId season_id = Inr i" and "p \<in> set PHASES"
  shows "\<exists>x. transition_to d now season_id p = Inr x"
  using assms
  by (simp add: transition_to_def update_phase_def split: prod.splits)

lemma auto_transition_raises:
  assumes raised: "auto_transition_phases fromiso tasks d t_phase t_ready t_update season_id = Inl e"
  shows "get_current_phase fromiso d t_phase season_id = Inl e
         \<or> (get_current_phase fromiso d t_phase season_id = Inr (VStr ''growth'')
             \<and> can_transition_to_harvest fromiso tasks d t_ready season_id = Inl e)"
proof (cases "get_current_phase fromiso d t_phase season_id")
  case (Inl e')
  with raised show ?thesis by (simp add: auto_transition_phases_def)
next
  case (Inr current)
  from get_current_phase_id [OF Inr] obtain i where i: "ObjectId season_id = Inr i" by blast
  have mem: "''growth'' \<in> set PHASES" "''harvest'' \<in> set PHASES" "''completed'' \<in> set PHASES"
    by (simp_all add: PHASES_def)
  consider (pre) "current = VStr ''pre_sowing''" | (gro) "current = VStr ''growth''"
    | (har) "current = VStr ''harvest''"
    | (other) "current \<noteq> VStr ''pre_sowing''" "current \<noteq> VStr ''growth''"
        "current \<noteq> VStr ''harvest''"
    by blast
  then show ?thesis
  proof cases
    case pre
    from transition_to_returns [OF i mem(1)] obtain x where
      "transition_to d t_update season_id ''growth'' = Inr x" by blast
    with raised auto_transition_pre_sowing [OF Inr [unfolded pre] i] have False
      by (simp split: option.splits if_splits)
    then show ?thesis ..
  next
    case gro
    from transition_to_returns [OF i mem(2)] obtain x where
      x: "transition_to d t_update season_id ''harvest'' = Inr x" by blast
    from raised auto_transition_growth [OF Inr [unfolded gro]] x
    have "can_transition_to_harvest fromiso tasks d t_ready season_id = Inl e"
      by (simp split: sum.splits if_splits)
    with Inr gro show ?thesis by simp
  next
    case har
    from transition_to_returns [OF i mem(3)] obtain x where
      "transition_to d t_update season_id ''completed'' = Inr x" by blast
    with raised auto_transition_harvest [OF Inr [unfolded har] i] have False
      by (simp split: option.splits if_splits)
    then show ?thesis ..
  next
    case other
    with raised auto_transition_other [OF Inr other] have False by simp
    then show ?thesis ..
  qed
qed

text \<open>
  Claim C7, as amended. A call of \<^verbatim>\<open>auto_transition_phases\<close> raises only when
  \<^verbatim>\<open>get_current_phase\<close> raises or, in the phase \<^verbatim>\<open>growth\<close>, when
  \<^verbatim>\<open>can_transition_to_harvest\<close> raises, and then with the same exception. A call that
  returns moves the season by at most one step in the order of \<^verbatim>\<open>PHASES\<close>: it returns \<^verbatim>\<open>growth\<close> exactly when the current phase is
  \<^verbatim>\<open>pre_sowing\<close> and the document has a \<^verbatim>\<open>start_date\<close>, \<^verbatim>\<open>harvest\<close> exactly when the
  current phase is \<^verbatim>\<open>growth\<close> and \<^verbatim>\<open>can_transition_to_harvest\<close> reports ready,
  \<^verbatim>\<open>completed\<close> exactly when the current phase is \<^verbatim>\<open>harvest\<close> and the document has an
  \<^verbatim>\<open>actual_harvest_date\<close>; in every other case it returns \<^verbatim>\<open>None\<close> and the database is
  unchanged. A returned phase is the successor in \<^verbatim>\<open>PHASES\<close> of the phase before the call,
  and it is the phase that \<^verbatim>\<open>get_current_phase\<close> reports afterwards.
\<close>

theorem auto_transition_one_step:
  "(\<forall>e. auto_transition_phases fromiso tasks d t_phase t_ready t_update season_id = Inl e \<longrightarrow>
        get_current_phase fromiso d t_phase season_id = Inl e
      \<or> (get_current_phase fromiso d t_phase season_id = Inr (VStr ''growth'')
          \<and> can_transition_to_harvest fromiso tasks d t_ready season_id = Inl e))
   \<and> (\<forall>res d'.
        auto_transition_phases fromiso tasks d t_phase t_ready t_update season_id = Inr (res, d')
        \<longrightarrow> (\<exists>current.
           get_current_phase fromiso d t_phase season_id = Inr current
         \<and> (res = Some ''growth'' \<and> current = VStr ''pre_sowing''
              \<and> (\<exists>i season. ObjectId season_id = Inr i \<and> d i = Some season
                    \<and> season ''start_date'' \<noteq> None)
            \<or> res = Some ''harvest'' \<and> current = VStr ''growth''
              \<and> (\<exists>r. can_transition_to_harvest fromiso tasks d t_ready season_id = Inr r
                    \<and> ready r)
            \<or> res = Some ''completed'' \<and> current = VStr ''harvest''
              \<and> (\<exists>i season. ObjectId season_id = Inr i \<and> d i = Some season
                    \<and> season ''actual_harvest_date'' \<noteq> None)
            \<or> res = None \<and> d' = d
              \<and> \<not> (current = VStr ''pre_sowing''
                    \<and> (\<exists>i season. ObjectId season_id = Inr i \<and> d i = Some season
                          \<and> season ''start_date'' \<noteq> None))
              \<and> \<not> (current = VStr ''growth''
                    \<and> (\<exists>r. can_transition_to_harvest fromiso tasks d t_ready season_id = Inr r
                          \<and> ready r))
              \<and> \<not> (current = VStr ''harvest''
                    \<and> (\<exists>i season. ObjectId season_id = Inr i \<and> d i = Some season
                          \<and> season ''actual_harvest_date'' \<noteq> None)))
         \<and> (\<forall>p. res = Some p \<longrightarrow>
                (\<exists>k. Suc k < length PHASES \<and> current = VStr (PHASES ! k) \<and> p = PHASES ! Suc k)
              \<and> (\<forall>fromiso' now'.
                    get_current_phase fromiso' d' now' season_id = Inr (VStr p)))))"
proof (intro conjI allI impI)
  fix e
  assume "auto_transition_phases fromiso tasks d t_phase t_ready t_update season_id = Inl e"
  then show "get_current_phase fromiso d t_phase season_id = Inl e
      \<or> (get_current_phase fromiso d t_phase season_id = Inr (VStr ''growth'')
          \<and> can_transition_to_harvest fromiso tasks d t_ready season_id = Inl e)"
    by (rule auto_transition_raises)
next
  fix res d'
  assume "auto_transition_phases fromiso tasks d t_phase t_ready t_update season_id
            = Inr (res, d')"
  then show "\<exists>current.
           get_current_phase fromiso d t_phase season_id = Inr current
         \<and> (res = Some ''growth'' \<and> current = VStr ''pre_sowing''
              \<and> (\<exists>i season. ObjectId season_id = Inr i \<and> d i = Some season
                    \<and> season ''start_date'' \<noteq> None)
            \<or> res = Some ''harvest'' \<and> current = VStr ''growth''
              \<and> (\<exists>r. can_transition_to_harvest fromiso tasks d t_ready season_id = Inr r
                    \<and> ready r)
            \<or> res = Some ''completed'' \<and> current = VStr ''harvest''
              \<and> (\<exists>i season. ObjectId season_id = Inr i \<and> d i = Some season
                    \<and> season ''actual_harvest_date'' \<noteq> None)
            \<or> res = None \<and> d' = d
              \<and> \<not> (current = VStr ''pre_sowing''
                    \<and> (\<exists>i season. ObjectId season_id = Inr i \<and> d i = Some season
                          \<and> season ''start_date'' \<noteq> None))
              \<and> \<not> (current = VStr ''growth''
                    \<and> (\<exists>r. can_transition_to_harvest fromiso tasks d t_ready season_id = Inr r
                          \<and> ready r))
              \<and> \<not> (current = VStr ''harvest''
                    \<and> (\<exists>i season. ObjectId season_id = Inr i \<and> d i = Some season
                          \<and> season ''actual_harvest_date'' \<noteq> None)))
         \<and> (\<forall>p. res = Some p \<longrightarrow>
                (\<exists>k. Suc k < length PHASES \<and> current = VStr (PHASES ! k) \<and> p = PHASES ! Suc k)
              \<and> (\<forall>fromiso' now'.
                    get_current_phase fromiso' d' now' season_id = Inr (VStr p)))"
    by (rule auto_transition_returns)
qed

theorem auto_transition_one_step_witness:
  "auto_transition_phases no_dates no_tasks
     [season1 \<mapsto> [''start_date'' \<mapsto> VDatetime (Naive (10 * day))]] 0 0 0 season1
     = Inr (Some ''growth'',
            [season1 \<mapsto> [''start_date'' \<mapsto> VDatetime (Naive (10 * day)),
                           ''current_phase'' \<mapsto> VStr ''growth'',
                           ''phase_updated_at'' \<mapsto> bson_datetime 0]])
   \<and> get_current_phase no_dates
         [season1 \<mapsto> [''start_date'' \<mapsto> VDatetime (Naive (10 * day))]] 0 season1
       = Inr (VStr ''pre_sowing'')
   \<and> get_current_phase no_dates
         [season1 \<mapsto> [''start_date'' \<mapsto> VDatetime (Naive (10 * day)),
                        ''current_phase'' \<mapsto> VStr ''growth'',
                        ''phase_updated_at'' \<mapsto> bson_datetime 0]] (200 * day) season1
       = Inr (VStr ''growth'')"
proof -
  let ?d0 = "[season1 \<mapsto> [''start_date'' \<mapsto> VDatetime (Naive (10 * day))]] :: db"
  let ?d1 = "[season1 \<mapsto> [''start_date'' \<mapsto> VDatetime (Naive (10 * day)),
                           ''current_phase'' \<mapsto> VStr ''growth'',
                           ''phase_updated_at'' \<mapsto> bson_datetime 0]] :: db"
  have before: "get_current_phase no_dates ?d0 0 season1 = Inr (VStr ''pre_sowing'')"
    by (simp add: get_current_phase_def ObjectId_season1 find_one_def days_elapsed_def
          timedelta_days_def crop_type_of_def duration_info_eq day_def)
  have upd: "transition_to ?d0 0 season1 ''growth'' = Inr (Some ''growth'', ?d1)"
    by (simp add: transition_to_def update_phase_def PHASES_def ObjectId_season1 update_one_def)
  have run: "auto_transition_phases no_dates no_tasks ?d0 0 0 0 season1
               = Inr (Some ''growth'', ?d1)"
    by (simp add: auto_transition_pre_sowing [OF before ObjectId_season1] upd)
  from auto_transition_one_step [THEN conjunct2, rule_format, OF run] obtain current where
    "\<forall>p. Some ''growth'' = Some p \<longrightarrow>
        (\<exists>k. Suc k < length PHASES \<and> current = VStr (PHASES ! k) \<and> p = PHASES ! Suc k)
      \<and> (\<forall>fromiso' now'. get_current_phase fromiso' ?d1 now' season1 = Inr (VStr p))"
    by blast
  then have "get_current_phase no_dates ?d1 (200 * day) season1 = Inr (VStr ''growth'')"
    by simp
  with run before show ?thesis by (intro conjI)
qed

text \<open>
  Claim C7 as stated lets a call that makes no transition return \<^verbatim>\<open>None\<close> in every case. The
  season id \<^verbatim>\<open>abc\<close> is not a well-formed ObjectId: \<^verbatim>\<open>get_current_phase\<close> raises InvalidId
  at the first line of the call, and the call raises instead of returning \<^verbatim>\<open>None\<close>.
\<close>

theorem auto_transition_malformed_id:
  "auto_transition_phases no_dates no_tasks Map.empty 0 0 0 ''abc'' = Inl InvalidId"
  by (simp add: auto_transition_phases_def get_current_phase_def ObjectId_def)

section \<open>Readiness for harvest\<close>














section \<open>Feedback analysis\<close>

lemma str_in_sublist: "str_in k s = sublist k s"
  by (induction s) (simp_all add: sublist_Cons_right)

lemma required_fields_set:
  "set required_fields = {''completed_as_planned'', ''actual_action'', ''is_deviation'', ''severity''}"
  by (simp add: required_fields_def)

lemma fill_fields_object:
  "\<exists>kvs'. fill_fields fs (JObj kvs) = Inr (JObj kvs')
         \<and> fst ` set kvs' = fst ` set kvs \<union> set fs
         \<and> (\<forall>k. map_of kvs' k =
                  (if k \<in> set fs \<and> k \<notin> fst ` set kvs then Some JNull else map_of kvs k))"
proof (induction fs arbitrary: kvs)
  case Nil
  then show ?case by simp
next
  case (Cons f fs)
  show ?case
  proof (cases "f \<in> fst ` set kvs")
    case True
    from Cons.IH [of kvs] obtain kvs' where
      "fill_fields fs (JObj kvs) = Inr (JObj kvs')"
      "fst ` set kvs' = fst ` set kvs \<union> set fs"
      "\<forall>k. map_of kvs' k =
                  (if k \<in> set fs \<and> k \<notin> fst ` set kvs then Some JNull else map_of kvs k)"
      by blast
    with True show ?thesis by auto
  next
    case False
    let ?kvs1 = "AList.update f JNull kvs"
    from Cons.IH [of ?kvs1] obtain kvs' where
      "fill_fields fs (JObj ?kvs1) = Inr (JObj kvs')"
      "fst ` set kvs' = fst ` set ?kvs1 \<union> set fs"
      "\<forall>k. map_of kvs' k =
                  (if k \<in> set fs \<and> k \<notin> fst ` set ?kvs1 then Some JNull else map_of ?kvs1 k)"
      by blast
    with False show ?thesis
      by (auto simp: AList.dom_update AList.update_conv')
  qed
qed

text \<open>
  Claim C8. When the content that the LLM returns, after the removal of the code fences,
  parses as a JSON object, \<^verbatim>\<open>analyze_feedback\<close> returns a dict that has the four keys
  \<^verbatim>\<open>completed_as_planned\<close>, \<^verbatim>\<open>actual_action\<close>, \<^verbatim>\<open>is_deviation\<close> and \<^verbatim>\<open>severity\<close>: a key
  that the object lacks is there with the value \<^verbatim>\<open>None\<close>, and every other key has the value
  of the parsed object.
\<close>

theorem analyze_feedback_required_fields:
  assumes "completion = Inr (Some content)"
    and "loads (strip_fences content) = Inr (JObj kvs)"
  shows "\<exists>kvs'. analyze_feedback loads completion planned_action farmer_response = JObj kvs'
           \<and> {''completed_as_planned'', ''actual_action'', ''is_deviation'', ''severity''}
                \<subseteq> fst ` set kvs'
           \<and> (\<forall>k. map_of kvs' k =
                 (if k \<in> {''completed_as_planned'', ''actual_action'', ''is_deviation'',
                           ''severity''} \<and> k \<notin> fst ` set kvs
                  then Some JNull else map_of kvs k))"
proof -
  from fill_fields_object [of required_fields kvs] obtain kvs' where
    f: "fill_fields required_fields (JObj kvs) = Inr (JObj kvs')"
    and keys: "fst ` set kvs' = fst ` set kvs \<union> set required_fields"
    and vals: "\<forall>k. map_of kvs' k =
                  (if k \<in> set required_fields \<and> k \<notin> fst ` set kvs then Some JNull
                   else map_of kvs k)"
    by blast
  have "analyze_feedback loads completion planned_action farmer_response = JObj kvs'"
    using assms f by (simp add: analyze_feedback_def llm_analysis_def)
  moreover have "{''completed_as_planned'', ''actual_action'', ''is_deviation'', ''severity''}
                \<subseteq> fst ` set kvs'"
    unfolding keys required_fields_set by (rule Un_upper2)
  moreover note vals [unfolded required_fields_set]
  ultimately show ?thesis by (intro exI conjI)
qed

theorem analyze_feedback_required_fields_witness:
  "analyze_feedback loads_empty_object (Inr (Some ''```json {} ```'')) ''Apply urea'' ''done''
     = JObj [(''completed_as_planned'', JNull), (''actual_action'', JNull),
             (''is_deviation'', JNull), (''severity'', JNull)]
   \<and> (\<exists>kvs'. analyze_feedback loads_empty_object (Inr (Some ''```json {} ```''))
                 ''Apply urea'' ''done'' = JObj kvs'
          \<and> {''completed_as_planned'', ''actual_action'', ''is_deviation'', ''severity''}
               \<subseteq> fst ` set kvs')"
proof -
  have clean: "strip_fences ''```json {} ```'' = ''{}''"
    by (simp add: strip_fences_def strip_def is_space_def Let_def suffix_to_prefix)
  have parsed: "loads_empty_object (strip_fences ''```json {} ```'') = Inr (JObj [])"
    by (simp add: clean loads_empty_object_def)
  have val: "analyze_feedback loads_empty_object (Inr (Some ''```json {} ```'')) ''Apply urea''
               ''done''
     = JObj [(''completed_as_planned'', JNull), (''actual_action'', JNull),
             (''is_deviation'', JNull), (''severity'', JNull)]"
    by (simp add: analyze_feedback_def llm_analysis_def parsed required_fields_def)
  from analyze_feedback_required_fields
         [where loads = loads_empty_object and content = "''```json {} ```''" and kvs = "[]"
            and planned_action = "''Apply urea''" and farmer_response = "''done''",
          OF refl parsed]
  have "\<exists>kvs'. analyze_feedback loads_empty_object (Inr (Some ''```json {} ```''))
                 ''Apply urea'' ''done'' = JObj kvs'
          \<and> {''completed_as_planned'', ''actual_action'', ''is_deviation'', ''severity''}
               \<subseteq> fst ` set kvs'"
    by blast
  with val show ?thesis by (rule conjI)
qed

lemma fallback_items:
  "item (fallback_analysis planned_action farmer_response) ''is_deviation'' =
     Some (JBool (\<not> (list_ex (\<lambda>keyword. str_in keyword (lower farmer_response)) completion_keywords
                     \<and> \<not> list_ex (\<lambda>keyword. str_in keyword (lower farmer_response))
                           deviation_keywords)))"
  "item (fallback_analysis planned_action farmer_response) ''severity'' =
     Some (JStr (if list_ex (\<lambda>keyword. str_in keyword (lower farmer_response)) completion_keywords
                    \<and> \<not> list_ex (\<lambda>keyword. str_in keyword (lower farmer_response))
                          deviation_keywords
                 then ''none'' else ''moderate''))"
  "item (fallback_analysis planned_action farmer_response) ''actual_action'' =
     Some (JStr (if list_ex (\<lambda>keyword. str_in keyword (lower farmer_response)) completion_keywords
                    \<and> \<not> list_ex (\<lambda>keyword. str_in keyword (lower farmer_response))
                          deviation_keywords
                 then planned_action else farmer_response))"
  "item (fallback_analysis planned_action farmer_response) ''deviation_type'' =
     Some (JStr (if list_ex (\<lambda>keyword. str_in keyword (lower farmer_response)) completion_keywords
                    \<and> \<not> list_ex (\<lambda>keyword. str_in keyword (lower farmer_response))
                          deviation_keywords
                 then ''none'' else ''unknown''))"
  "item (fallback_analysis planned_action farmer_response) ''requires_agent_response'' =
     Some (JBool (\<not> (list_ex (\<lambda>keyword. str_in keyword (lower farmer_response)) completion_keywords
                     \<and> \<not> list_ex (\<lambda>keyword. str_in keyword (lower farmer_response))
                           deviation_keywords)))"
  by (simp_all add: fallback_analysis_def Let_def)

lemma keyword_lists:
  "list_ex (\<lambda>keyword. str_in keyword s) completion_keywords =
     (\<exists>keyword \<in> {''done'', ''completed'', ''did it'', ''finished'', ''applied'', ''yes''}.
        sublist keyword s)"
  "list_ex (\<lambda>keyword. str_in keyword s) deviation_keywords =
     (\<exists>keyword \<in> {''instead'', ''different'', ''couldn't'', ''forgot'', ''didn't'', ''other''}.
        sublist keyword s)"
  by (simp_all add: completion_keywords_def deviation_keywords_def str_in_sublist)

lemma analyze_feedback_falls_back:
  assumes "completion = Inl e
           \<or> (\<exists>content e. completion = Inr (Some content)
                 \<and> loads (strip_fences content) = Inl e)"
  shows "analyze_feedback loads completion planned_action farmer_response
           = fallback_analysis planned_action farmer_response"
  using assms by (auto simp: analyze_feedback_def llm_analysis_def)

lemma fallback_shape:
  assumes "is_dev = Some (JBool (\<not> c))"
    and "sev = Some (JStr (if c then ''none'' else ''moderate''))"
    and "act = Some (JStr (if c then planned else response))"
    and "dev = Some (JStr (if c then ''none'' else ''unknown''))"
    and "req = Some (JBool (\<not> c))"
  shows "((is_dev = Some (JBool False) \<and> sev = Some (JStr ''none'')
            \<and> act = Some (JStr planned)) \<longleftrightarrow> c)
         \<and> (\<not> c \<longrightarrow> is_dev = Some (JBool True) \<and> sev = Some (JStr ''moderate'')
                \<and> dev = Some (JStr ''unknown'') \<and> req = Some (JBool True))"
  using assms by (cases c) simp_all

text \<open>
  Claim C4. When the LLM call raises, or \<^verbatim>\<open>json.loads\<close> raises on its content,
  \<^verbatim>\<open>analyze_feedback\<close> returns the keyword classification: \<^verbatim>\<open>is_deviation\<close> false,
  \<^verbatim>\<open>severity\<close> \<^verbatim>\<open>none\<close> and \<^verbatim>\<open>actual_action\<close> equal to the planned action exactly when the
  lower-cased response contains a completion keyword and no deviation keyword; otherwise
  \<^verbatim>\<open>is_deviation\<close> true, \<^verbatim>\<open>severity\<close> \<^verbatim>\<open>moderate\<close>, \<^verbatim>\<open>deviation_type\<close> \<^verbatim>\<open>unknown\<close> and
  \<^verbatim>\<open>requires_agent_response\<close> true.
\<close>

theorem analyze_feedback_fallback:
  assumes "completion = Inl e
           \<or> (\<exists>content e'. completion = Inr (Some content)
                 \<and> loads (strip_fences content) = Inl e')"
  shows "(let result = analyze_feedback loads completion planned_action farmer_response;
              completed =
                (\<exists>keyword \<in> {''done'', ''completed'', ''did it'', ''finished'', ''applied'',
                               ''yes''}.
                   sublist keyword (lower farmer_response));
              has_deviation =
                (\<exists>keyword \<in> {''instead'', ''different'', ''couldn't'', ''forgot'', ''didn't'',
                               ''other''}.
                   sublist keyword (lower farmer_response))
          in ((item result ''is_deviation'' = Some (JBool False)
                 \<and> item result ''severity'' = Some (JStr ''none'')
                 \<and> item result ''actual_action'' = Some (JStr planned_action))
               \<longleftrightarrow> completed \<and> \<not> has_deviation)
             \<and> (\<not> (completed \<and> \<not> has_deviation) \<longrightarrow>
                   item result ''is_deviation'' = Some (JBool True)
                 \<and> item result ''severity'' = Some (JStr ''moderate'')
                 \<and> item result ''deviation_type'' = Some (JStr ''unknown'')
                 \<and> item result ''requires_agent_response'' = Some (JBool True)))"
proof -
  have eq: "analyze_feedback loads completion planned_action farmer_response
              = fallback_analysis planned_action farmer_response"
    using assms by (rule analyze_feedback_falls_back)
  note items = fallback_items [of planned_action farmer_response, unfolded keyword_lists]
  show ?thesis
    unfolding Let_def eq
    by (rule fallback_shape [OF items])
qed

theorem analyze_feedback_fallback_witness:
  "item (analyze_feedback loads_empty_object (Inl APIError) ''Apply urea'' ''Yes I applied it'')
      ''is_deviation'' = Some (JBool False)
   \<and> item (analyze_feedback loads_empty_object (Inl APIError) ''Apply urea''
             ''Yes I applied it'')
      ''actual_action'' = Some (JStr ''Apply urea'')
   \<and> item (analyze_feedback loads_empty_object (Inr (Some ''no JSON here'')) ''Apply urea''
             ''I forgot'')
      ''is_deviation'' = Some (JBool True)"
proof -
  have low1: "lower ''Yes I applied it'' = ''yes i applied it''"
    by (simp add: lower_def lower_char_def)
  have low2: "lower ''I forgot'' = ''i forgot''"
    by (simp add: lower_def lower_char_def)
  have c1: "\<exists>keyword \<in> {''done'', ''completed'', ''did it'', ''finished'', ''applied'', ''yes''}.
              sublist keyword ''yes i applied it''"
    by (simp add: str_in_sublist [symmetric])
  have d1: "\<not> (\<exists>keyword \<in> {''instead'', ''different'', ''couldn't'', ''forgot'', ''didn't'',
                               ''other''}.
              sublist keyword ''yes i applied it'')"
    by (simp add: str_in_sublist [symmetric])
  have d2: "\<exists>keyword \<in> {''instead'', ''different'', ''couldn't'', ''forgot'', ''didn't'',
                               ''other''}.
              sublist keyword ''i forgot''"
    by (simp add: str_in_sublist [symmetric])
  have bad: "loads_empty_object (strip_fences ''no JSON here'') = Inl JSONDecodeError"
    by (simp add: loads_empty_object_def strip_fences_def strip_def is_space_def Let_def
          suffix_to_prefix)
  note t1 = analyze_feedback_fallback
    [where completion = "Inl APIError" and e = APIError and loads = loads_empty_object
       and planned_action = "''Apply urea''" and farmer_response = "''Yes I applied it''",
     OF disjI1 [OF refl], unfolded Let_def low1]
  have raised: "Inr (Some ''no JSON here'') = Inl APIError
           \<or> (\<exists>content e'. Inr (Some ''no JSON here'') = Inr (Some content)
                 \<and> loads_empty_object (strip_fences content) = Inl e')"
    using bad by blast
  note t2 = analyze_feedback_fallback
    [where completion = "Inr (Some ''no JSON here'')" and e = APIError
       and loads = loads_empty_object
       and planned_action = "''Apply urea''" and farmer_response = "''I forgot''",
     OF raised, unfolded Let_def low2]
  from t1 [THEN conjunct1, THEN iffD2, OF conjI [OF c1 d1]]
  have a: "item (analyze_feedback loads_empty_object (Inl APIError) ''Apply urea''
                   ''Yes I applied it'') ''is_deviation'' = Some (JBool False)"
    and b: "item (analyze_feedback loads_empty_object (Inl APIError) ''Apply urea''
                   ''Yes I applied it'') ''actual_action'' = Some (JStr ''Apply urea'')"
    by blast+
  from d2 have "\<not> ((\<exists>keyword \<in> {''done'', ''completed'', ''did it'', ''finished'', ''applied'',
                                    ''yes''}. sublist keyword ''i forgot'')
                   \<and> \<not> (\<exists>keyword \<in> {''instead'', ''different'', ''couldn't'', ''forgot'',
                                         ''didn't'', ''other''}. sublist keyword ''i forgot''))"
    by blast
  from t2 [THEN conjunct2, rule_format, OF this]
  have c: "item (analyze_feedback loads_empty_object (Inr (Some ''no JSON here'')) ''Apply urea''
                   ''I forgot'') ''is_deviation'' = Some (JBool True)"
    by blast
  from a b c show ?thesis by (intro conjI)
qed

end
